theory Spec2Isabelle
  imports Complex_Main "HOL-Library.AList"
begin

section \<open>Data model\<close>

text \<open>
  The script \<^verbatim>\<open>geojsonclipper.py\<close> keeps its features in a GeoDataFrame: one row per
  feature, a \<^verbatim>\<open>geometry\<close> column and one column per property. A row is modelled as a
  record of the geometry and the association list of the other columns, in column order.
  Coordinates and areas are Python floats; they are modelled as reals.
\<close>

type_synonym point = "real \<times> real"

datatype pval = VStr string | VNum real | VInt int | VNull | VPoint point

record 'g feature =
  geometry :: 'g
  properties :: "(string \<times> pval) list"

text \<open>
  \<^verbatim>\<open>ZeroDivisionError\<close> is raised by the script's own divisions, \<^verbatim>\<open>ValueError\<close> by the
  libraries' accessors and constructors. \<^verbatim>\<open>InvalidPolygonError\<close> is the name the
  specification gives to a rejected selection polygon; the script defines no such class.
\<close>

datatype error = ZeroDivisionError | ValueError | InvalidPolygonError

text \<open>
  The geometry library (shapely, through geopandas) is not part of the repository. Its
  operations are a parameter of every definition below: \<open>'g\<close> is the library's geometry
  type, and the record holds the operations the script calls.
  \<^item> \<open>buffer g d\<close> is \<^verbatim>\<open>g.buffer(d)\<close>;
  \<^item> \<open>intersects a b\<close> is \<^verbatim>\<open>a.intersects(b)\<close>;
  \<^item> \<open>intersection a b\<close> is \<^verbatim>\<open>a.intersection(b)\<close>;
  \<^item> \<open>area g\<close> is \<^verbatim>\<open>g.area\<close>;
  \<^item> \<open>unary_union gs\<close> is \<^verbatim>\<open>unary_union(gs)\<close>;
  \<^item> \<open>centroid g\<close> is the coordinate pair of \<^verbatim>\<open>g.centroid\<close>;
  \<^item> \<open>centroid_nan g\<close> holds when \<^verbatim>\<open>g.centroid\<close> is the empty point, whose
    coordinates read as NaN, as it is for an empty geometry; \<open>centroid g\<close> stands for
    the coordinates otherwise;
  \<^item> \<open>point_xy g\<close> is the pair \<^verbatim>\<open>(g.x, g.y)\<close> that the accessors
    \<^verbatim>\<open>GeoSeries.x\<close> and \<^verbatim>\<open>GeoSeries.y\<close> read, defined for Point geometries only;
  \<^item> \<open>polygon_raises ring\<close> is the exception, if any, with which the constructor
    \<^verbatim>\<open>Polygon(ring)\<close> rejects a coordinate list.
\<close>

record 'g geom_ops =
  buffer :: "'g \<Rightarrow> real \<Rightarrow> 'g"
  intersects :: "'g \<Rightarrow> 'g \<Rightarrow> bool"
  intersection :: "'g \<Rightarrow> 'g \<Rightarrow> 'g"
  area :: "'g \<Rightarrow> real"
  unary_union :: "'g list \<Rightarrow> 'g"
  centroid :: "'g \<Rightarrow> point"
  centroid_nan :: "'g \<Rightarrow> bool"
  point_xy :: "'g \<Rightarrow> point option"
  polygon_raises :: "point list \<Rightarrow> error option"

section \<open>Property filter (lines 53-65)\<close>

text \<open>
  \<^verbatim>\<open>gdf[selected_column]\<close> read at one row; a row with no value in the column holds
  a null there.
\<close>

definition column_value :: "'g feature \<Rightarrow> string \<Rightarrow> pval" where
  "column_value row selected_column =
     (case map_of (properties row) selected_column of Some v \<Rightarrow> v | None \<Rightarrow> VNull)"

text \<open>
  \<^verbatim>\<open>if selected_values: gdf = gdf[gdf[selected_column].isin(selected_values)]\<close>
\<close>

definition property_filter :: "'g feature list \<Rightarrow> string \<Rightarrow> pval list \<Rightarrow> 'g feature list" where
  "property_filter gdf selected_column selected_values =
     (if selected_values \<noteq> []
      then filter (\<lambda>row. column_value row selected_column \<in> set selected_values) gdf
      else gdf)"

section \<open>Overlap merger (lines 113-114 and 131-166)\<close>

text \<open>
  The state of the inner scan: the members of the cluster, its geometry so far, and the
  set \<^verbatim>\<open>processed\<close> shared with the outer loop.
\<close>

record 'g scan_state =
  current_group :: "nat list"
  current_geom :: 'g
  processed :: "nat set"

text \<open>
  Lines 147-152, the test on one candidate: \<open>Inr True\<close> when the candidate is to be
  absorbed. The division of line 150 raises \<^verbatim>\<open>ZeroDivisionError\<close> on a zero
  \<^verbatim>\<open>min_area\<close>. The threshold is the integer of the slider.
\<close>

definition overlap_test :: "'g geom_ops \<Rightarrow> int \<Rightarrow> 'g \<Rightarrow> 'g \<Rightarrow> error + bool" where
  "overlap_test ops overlap_threshold cur test_geom =
     (if intersects ops cur test_geom then
        (let intersection_area = area ops (intersection ops cur test_geom);
             min_area = min (area ops cur) (area ops test_geom)
         in if min_area = 0 then Inl ZeroDivisionError
            else Inr (intersection_area / min_area * 100 > real_of_int overlap_threshold))
      else Inr False)"

definition absorb :: "'g geom_ops \<Rightarrow> 'g \<Rightarrow> nat \<Rightarrow> 'g scan_state \<Rightarrow> 'g scan_state" where
  "absorb ops test_geom j st =
     st\<lparr>current_group := current_group st @ [j],
        current_geom := unary_union ops [current_geom st, test_geom],
        processed := insert j (processed st)\<rparr>"

text \<open>
  Lines 142-155, the loop over \<^verbatim>\<open>j in range(i + 1, len(buffered_gdf))\<close>, as a recursion
  over the list of candidates. Every index the loops read is below the length of
  \<^verbatim>\<open>buffered_gdf\<close>, so \<^verbatim>\<open>iloc\<close> never raises there.
\<close>

fun inner_scan :: "'g geom_ops \<Rightarrow> 'g list \<Rightarrow> int \<Rightarrow> nat list \<Rightarrow> 'g scan_state
    \<Rightarrow> error + 'g scan_state" where
  "inner_scan ops buffered thr [] st = Inr st"
| "inner_scan ops buffered thr (j # js) st =
     (if j \<in> processed st then inner_scan ops buffered thr js st
      else (case overlap_test ops thr (current_geom st) (buffered ! j) of
              Inl e \<Rightarrow> Inl e
            | Inr True \<Rightarrow> inner_scan ops buffered thr js (absorb ops (buffered ! j) j st)
            | Inr False \<Rightarrow> inner_scan ops buffered thr js st))"

text \<open>Lines 158-162, the dictionary appended to \<^verbatim>\<open>merged_features\<close>.\<close>

definition merged_feature :: "'g geom_ops \<Rightarrow> 'g scan_state \<Rightarrow> 'g feature" where
  "merged_feature ops st =
     \<lparr>geometry = current_geom st,
      properties = [(''original_count'', VInt (int (length (current_group st)))),
                    (''center'', VPoint (centroid ops (current_geom st)))]\<rparr>"

text \<open>
  Lines 135-163, the loop over \<^verbatim>\<open>i in range(len(buffered_gdf))\<close>; the accumulator is
  \<^verbatim>\<open>merged_features\<close> and \<^verbatim>\<open>processed\<close>.
\<close>

fun merge_loop :: "'g geom_ops \<Rightarrow> 'g list \<Rightarrow> int \<Rightarrow> nat list \<Rightarrow> 'g feature list \<times> nat set
    \<Rightarrow> error + 'g feature list \<times> nat set" where
  "merge_loop ops buffered thr [] acc = Inr acc"
| "merge_loop ops buffered thr (i # is) (merged_features, proc) =
     (if i \<in> proc then merge_loop ops buffered thr is (merged_features, proc)
      else (case inner_scan ops buffered thr [Suc i ..< length buffered]
                   \<lparr>current_group = [i], current_geom = buffered ! i, processed = proc\<rparr> of
              Inl e \<Rightarrow> Inl e
            | Inr st \<Rightarrow>
                merge_loop ops buffered thr is
                  (if current_group st \<noteq> [] then merged_features @ [merged_feature ops st]
                   else merged_features,
                   insert i (processed st))))"

text \<open>
  Lines 113-114 and 131-166: buffer every geometry by the number entered as the buffer
  distance, run the loop from empty \<^verbatim>\<open>merged_features\<close> and \<^verbatim>\<open>processed\<close>, and build
  the merged frame.
\<close>

definition merge_features :: "'g geom_ops \<Rightarrow> 'g feature list \<Rightarrow> int \<Rightarrow> int
    \<Rightarrow> error + 'g feature list" where
  "merge_features ops gdf buffer_distance overlap_threshold =
     (let buffered = map (\<lambda>row. buffer ops (geometry row) (real_of_int buffer_distance)) gdf
      in case merge_loop ops buffered overlap_threshold [0 ..< length buffered] ([], {}) of
           Inl e \<Rightarrow> Inl e
         | Inr (merged_features, proc) \<Rightarrow> Inr merged_features)"

text \<open>
  \<^verbatim>\<open>row.get('original_count', 1)\<close> of line 249: the count a feature carries, 1 for a
  feature that was never merged.
\<close>

definition original_count :: "'g feature \<Rightarrow> int" where
  "original_count row =
     (case map_of (properties row) ''original_count'' of Some (VInt n) \<Rightarrow> n | _ \<Rightarrow> 1)"

text \<open>
  Lines 203-208, the statistics shown after the merge: \<^verbatim>\<open>reduction = ((len(gdf) -
  len(merged)) / len(gdf) * 100)\<close>, a division of Python integers, which raises on a zero
  divisor.
\<close>

definition reduction_metric :: "nat \<Rightarrow> nat \<Rightarrow> error + real" where
  "reduction_metric n_gdf n_merged =
     (if n_gdf = 0 then Inl ZeroDivisionError
      else Inr (real_of_int (int n_gdf - int n_merged) / real n_gdf * 100))"

text \<open>
  The block under \<^verbatim>\<open>try\<close> (lines 87-213) draws three maps around the loop. A location
  handed to \<^verbatim>\<open>folium.Map\<close> or \<^verbatim>\<open>folium.Circle\<close> is a pair of floats; \<open>None\<close> stands for
  a pair that holds NaN. The drawing library refuses such a location with
  \<^verbatim>\<open>ValueError\<close>; nothing else of the drawing is modelled.
\<close>

definition folium_location :: "point option \<Rightarrow> error option" where
  "folium_location location = (case location of None \<Rightarrow> Some ValueError | Some p \<Rightarrow> None)"

text \<open>
  \<^verbatim>\<open>[row.geometry.centroid.y, row.geometry.centroid.x]\<close> of lines 97, 118, 177 and
  \<^verbatim>\<open>[row.center.y, row.center.x]\<close> of line 187 (the center of a merged row is the
  centroid of its geometry).
\<close>

definition centroid_location :: "'g geom_ops \<Rightarrow> 'g \<Rightarrow> point option" where
  "centroid_location ops g =
     (if centroid_nan ops g then None else Some (snd (centroid ops g), fst (centroid ops g)))"

text \<open>
  \<^verbatim>\<open>[gdf.geometry.centroid.y.mean(), gdf.geometry.centroid.x.mean()]\<close> of lines 91, 109,
  170: the mean skips NaN and is NaN itself when no value is left, as on the empty frame.
\<close>

definition mean_location :: "'g geom_ops \<Rightarrow> 'g list \<Rightarrow> point option" where
  "mean_location ops gs =
     (case List.map_filter (centroid_location ops) gs of
        [] \<Rightarrow> None
      | l # ls \<Rightarrow>
          Some (sum_list (map fst (l # ls)) / real (length (l # ls)),
                sum_list (map snd (l # ls)) / real (length (l # ls))))"

text \<open>The first exception of a sequence of calls, if any.\<close>

fun first_error :: "error option list \<Rightarrow> error option" where
  "first_error [] = None"
| "first_error (Some e # calls) = Some e"
| "first_error (None # calls) = first_error calls"

definition draw_map :: "'g geom_ops \<Rightarrow> 'g list \<Rightarrow> error option" where
  "draw_map ops gs = folium_location (mean_location ops gs)"

definition draw_circles :: "'g geom_ops \<Rightarrow> 'g list \<Rightarrow> error option" where
  "draw_circles ops gs = first_error (map (\<lambda>g. folium_location (centroid_location ops g)) gs)"

text \<open>
  The block under \<^verbatim>\<open>try\<close> (lines 87-213), in the order of the script: the map of the
  original features (lines 90-101), the map of the buffered features (lines 108-123), the
  loop (lines 131-166), the map of the merged features (lines 169-193) and the reduction
  (line 207). An exception leaves the block for the handler of line 215, and \<^verbatim>\<open>gdf\<close>
  stays what it was.
\<close>

definition merge_stage :: "'g geom_ops \<Rightarrow> 'g feature list \<Rightarrow> int \<Rightarrow> int
    \<Rightarrow> error + 'g feature list \<times> real" where
  "merge_stage ops gdf buffer_distance overlap_threshold =
     (let buffered = map (\<lambda>row. buffer ops (geometry row) (real_of_int buffer_distance)) gdf
      in case first_error
                [draw_map ops (map geometry gdf), draw_circles ops (map geometry gdf),
                 draw_map ops (map geometry gdf), draw_circles ops buffered] of
           Some e \<Rightarrow> Inl e
         | None \<Rightarrow>
             (case merge_features ops gdf buffer_distance overlap_threshold of
                Inl e \<Rightarrow> Inl e
              | Inr merged \<Rightarrow>
                  (case first_error
                          [draw_map ops (map geometry gdf), draw_circles ops (map geometry gdf),
                           draw_circles ops (map geometry merged)] of
                     Some e \<Rightarrow> Inl e
                   | None \<Rightarrow>
                       (case reduction_metric (length gdf) (length merged) of
                          Inl e \<Rightarrow> Inl e
                        | Inr reduction \<Rightarrow> Inr (merged, reduction)))))"

text \<open>
  The specification's own words for the test of the inner scan (section 4.3, step 5):
  \<^verbatim>\<open>overlap_percentage = intersection_area / min(area(current_geom), area(buffered_j)) * 100\<close>,
  with no guard in front of it.
\<close>

definition spec_overlap_percentage :: "'g geom_ops \<Rightarrow> 'g \<Rightarrow> 'g \<Rightarrow> real" where
  "spec_overlap_percentage ops cur buffered_j =
     area ops (intersection ops cur buffered_j) / min (area ops cur) (area ops buffered_j) * 100"

section \<open>Polygon selector (lines 270-274)\<close>

text \<open>
  The ring is \<^verbatim>\<open>selection['geometry']['coordinates'][0]\<close>. Its edges join each
  coordinate pair to the next, and the last to the first.
\<close>

definition ring_edges :: "point list \<Rightarrow> (point \<times> point) list" where
  "ring_edges ring = zip ring (rotate1 ring)"

fun on_segment :: "point \<Rightarrow> point \<times> point \<Rightarrow> bool" where
  "on_segment (px, py) ((ax, ay), (bx, by)) =
     ((bx - ax) * (py - ay) = (by - ay) * (px - ax) \<and>
      min ax bx \<le> px \<and> px \<le> max ax bx \<and> min ay by \<le> py \<and> py \<le> max ay by)"

definition on_boundary :: "point list \<Rightarrow> point \<Rightarrow> bool" where
  "on_boundary ring p = list_ex (on_segment p) (ring_edges ring)"

text \<open>An edge crosses the horizontal ray that leaves the point to the right.\<close>

fun crosses :: "point \<Rightarrow> point \<times> point \<Rightarrow> bool" where
  "crosses (px, py) ((ax, ay), (bx, by)) =
     ((ay > py) \<noteq> (by > py) \<and> px < ax + (py - ay) * (bx - ax) / (by - ay))"

text \<open>
  Modelled from the spec: the library predicate \<^verbatim>\<open>select_poly.contains(point)\<close>, which
  is not in the repository. The specification (section 4.4) describes it as containment
  in the strict interior of a simple polygon whose ring is closed implicitly, the boundary
  excluded. The interior is decided by the even-odd rule: a ray from the point crosses
  the ring an odd number of times.
\<close>

definition ring_contains :: "point list \<Rightarrow> point \<Rightarrow> bool" where
  "ring_contains ring p =
     (\<not> on_boundary ring p \<and> odd (length (filter (crosses p) (ring_edges ring))))"

text \<open>
  Lines 273-274: \<^verbatim>\<open>Polygon(ring)\<close>, then the rows whose centroid the polygon contains.
  The script checks nothing about the ring itself; an exception of the constructor
  leaves for the handler of line 310.
\<close>

definition polygon_selector :: "'g geom_ops \<Rightarrow> 'g feature list \<Rightarrow> point list
    \<Rightarrow> error + 'g feature list" where
  "polygon_selector ops gdf ring =
     (case polygon_raises ops ring of
        Some e \<Rightarrow> Inl e
      | None \<Rightarrow> Inr (filter (\<lambda>row. ring_contains ring (centroid ops (geometry row))) gdf))"

text \<open>
  The specification's words for a malformed polygon (section 4.4): fewer than 3 distinct
  vertices.
\<close>

definition spec_malformed_polygon :: "point list \<Rightarrow> bool" where
  "spec_malformed_polygon ring = (card (set ring) < 3)"

section \<open>CSV export (lines 298-301)\<close>

text \<open>
  \<^verbatim>\<open>selected_signals.geometry.x\<close> and \<^verbatim>\<open>.y\<close>: the coordinates of every row, or
  \<^verbatim>\<open>ValueError\<close> when a geometry is not a Point.
\<close>

fun point_coords :: "'g geom_ops \<Rightarrow> 'g list \<Rightarrow> error + point list" where
  "point_coords ops [] = Inr []"
| "point_coords ops (g # gs) =
     (case point_xy ops g of
        None \<Rightarrow> Inl ValueError
      | Some p \<Rightarrow> (case point_coords ops gs of Inl e \<Rightarrow> Inl e | Inr ps \<Rightarrow> Inr (p # ps)))"

text \<open>
  \<^verbatim>\<open>output_df[name] = values\<close>: the column is overwritten where it exists and appended
  as the last column otherwise.
\<close>

definition set_column :: "string \<Rightarrow> pval list \<Rightarrow> (string \<times> pval) list list
    \<Rightarrow> (string \<times> pval) list list" where
  "set_column name vals rows = map (\<lambda>(v, row). AList.update name v row) (zip vals rows)"

text \<open>
  Lines 298-300, the frame handed to \<^verbatim>\<open>to_csv\<close>: the rows without the geometry column,
  then the columns \<^verbatim>\<open>latitude\<close> and \<^verbatim>\<open>longitude\<close>. Each right-hand side is evaluated
  before its assignment. The script reaches these lines for a selection of at least one
  row (line 278).
\<close>

definition csv_export :: "'g geom_ops \<Rightarrow> 'g feature list \<Rightarrow> error + (string \<times> pval) list list" where
  "csv_export ops selected_signals =
     (let output_df = map properties selected_signals
      in case point_coords ops (map geometry selected_signals) of
           Inl e \<Rightarrow> Inl e
         | Inr ps \<Rightarrow>
             Inr (set_column ''longitude'' (map (\<lambda>p. VNum (fst p)) ps)
                   (set_column ''latitude'' (map (\<lambda>p. VNum (snd p)) ps) output_df)))"

section \<open>A raster instance of the geometry operations\<close>

text \<open>
  To evaluate the definitions on concrete inputs the operations are instantiated with a
  raster geometry: a region is a finite list of unit cells of the integer grid (a cell is
  named by its lower left corner), its area is the number of its cells, and the buffer of
  a point is the square block of cells around it. The centroid of the empty region is the
  empty point (the instance keeps the origin as its placeholder). The instance rejects a
  ring of one or
  two coordinate pairs with \<^verbatim>\<open>ValueError\<close>, as the library's ring constructor does, and
  checks nothing else.
\<close>

datatype grid_geom = GPoint real real | GCells "(int \<times> int) list"

fun cells :: "grid_geom \<Rightarrow> (int \<times> int) list" where
  "cells (GPoint x y) = []"
| "cells (GCells cs) = cs"

definition block :: "int \<Rightarrow> int \<Rightarrow> int \<Rightarrow> int \<Rightarrow> (int \<times> int) list" where
  "block a0 a1 b0 b1 = concat (map (\<lambda>a. map (\<lambda>b. (a, b)) [b0 .. b1]) [a0 .. a1])"

fun grid_buffer :: "grid_geom \<Rightarrow> real \<Rightarrow> grid_geom" where
  "grid_buffer (GPoint x y) d =
     GCells (block (\<lfloor>x\<rfloor> - \<lfloor>d\<rfloor>) (\<lfloor>x\<rfloor> + \<lfloor>d\<rfloor> - 1) (\<lfloor>y\<rfloor> - \<lfloor>d\<rfloor>) (\<lfloor>y\<rfloor> + \<lfloor>d\<rfloor> - 1))"
| "grid_buffer (GCells cs) d =
     GCells (remdups (concat (map (\<lambda>(a, b).
       block (a - \<lfloor>d\<rfloor>) (a + \<lfloor>d\<rfloor>) (b - \<lfloor>d\<rfloor>) (b + \<lfloor>d\<rfloor>)) cs)))"

definition grid_intersection :: "grid_geom \<Rightarrow> grid_geom \<Rightarrow> grid_geom" where
  "grid_intersection g h = GCells (filter (\<lambda>c. c \<in> set (cells h)) (cells g))"

definition grid_intersects :: "grid_geom \<Rightarrow> grid_geom \<Rightarrow> bool" where
  "grid_intersects g h = (cells (grid_intersection g h) \<noteq> [])"

definition grid_area :: "grid_geom \<Rightarrow> real" where
  "grid_area g = real (length (remdups (cells g)))"

definition grid_union :: "grid_geom list \<Rightarrow> grid_geom" where
  "grid_union gs = GCells (remdups (concat (map cells gs)))"

fun grid_centroid :: "grid_geom \<Rightarrow> point" where
  "grid_centroid (GPoint x y) = (x, y)"
| "grid_centroid (GCells cs) =
     (if cs = [] then (0, 0)
      else (sum_list (map (\<lambda>c. real_of_int (fst c) + 1 / 2) cs) / real (length cs),
            sum_list (map (\<lambda>c. real_of_int (snd c) + 1 / 2) cs) / real (length cs)))"

fun grid_centroid_nan :: "grid_geom \<Rightarrow> bool" where
  "grid_centroid_nan (GPoint x y) = False"
| "grid_centroid_nan (GCells cs) = (cs = [])"

fun grid_point_xy :: "grid_geom \<Rightarrow> point option" where
  "grid_point_xy (GPoint x y) = Some (x, y)"
| "grid_point_xy (GCells cs) = None"

definition short_ring_raises :: "point list \<Rightarrow> error option" where
  "short_ring_raises ring = (if ring \<noteq> [] \<and> length ring < 3 then Some ValueError else None)"

definition grid_ops :: "grid_geom geom_ops" where
  "grid_ops =
     \<lparr>buffer = grid_buffer, intersects = grid_intersects, intersection = grid_intersection,
      area = grid_area, unary_union = grid_union, centroid = grid_centroid,
      centroid_nan = grid_centroid_nan, point_xy = grid_point_xy,
      polygon_raises = short_ring_raises\<rparr>"

text \<open>A point feature with one property, and a polygon feature with none.\<close>

definition point_feature :: "real \<Rightarrow> real \<Rightarrow> grid_geom feature" where
  "point_feature x y = \<lparr>geometry = GPoint x y, properties = [(''name'', VStr ''a'')]\<rparr>"

definition region_feature :: "(int \<times> int) list \<Rightarrow> grid_geom feature" where
  "region_feature cs = \<lparr>geometry = GCells cs, properties = []\<rparr>"

section \<open>The library's values at two nearly coincident buffers\<close>

text \<open>
  A second instance holds what the library returns, in double precision, for the buffers
  of radius 25 around the points (0,0) and (0,1e-15). A shape is kept as the expression
  that built it; its region is the set of its points, with the disc standing for the
  64-sided polygon that approximates it. The areas are the reported ones: 1960.3428065912117
  for each buffer and 1960.3428065912126 for their intersection, which rounding leaves
  above both. Shapes outside this run have no reported area; the instance gives them 0.
\<close>

datatype shape = Spot point | Disc point real | Meet shape shape | Join "shape list"

fun region :: "shape \<Rightarrow> point set" where
  "region (Spot p) = {p}"
| "region (Disc c r) = {p. (fst p - fst c)\<^sup>2 + (snd p - snd c)\<^sup>2 \<le> r\<^sup>2}"
| "region (Meet a b) = region a \<inter> region b"
| "region (Join ss) = (\<Union>s \<in> set ss. region s)"

fun run_buffer :: "shape \<Rightarrow> real \<Rightarrow> shape" where
  "run_buffer (Spot p) d = Disc p d"
| "run_buffer s d = s"

fun run_intersects :: "shape \<Rightarrow> shape \<Rightarrow> bool" where
  "run_intersects (Disc c r) (Disc c' r') =
     ((fst c - fst c')\<^sup>2 + (snd c - snd c')\<^sup>2 \<le> (r + r')\<^sup>2)"
| "run_intersects a b = False"

definition run_area :: "shape \<Rightarrow> real" where
  "run_area s =
     (if s = Disc (0, 0) 25 \<or> s = Disc (0, 1 / 10 ^ 15) 25 then 1960.3428065912117
      else if s = Meet (Disc (0, 0) 25) (Disc (0, 1 / 10 ^ 15) 25) then 1960.3428065912126
      else 0)"

fun run_centroid :: "shape \<Rightarrow> point" where
  "run_centroid (Spot p) = p"
| "run_centroid (Disc c r) = c"
| "run_centroid (Meet a b) =
     ((fst (run_centroid a) + fst (run_centroid b)) / 2,
      (snd (run_centroid a) + snd (run_centroid b)) / 2)"
| "run_centroid (Join ss) =
     (if ss = [] then (0, 0)
      else (sum_list (map (\<lambda>s. fst (run_centroid s)) ss) / real (length ss),
            sum_list (map (\<lambda>s. snd (run_centroid s)) ss) / real (length ss)))"

fun run_point_xy :: "shape \<Rightarrow> point option" where
  "run_point_xy (Spot p) = Some p"
| "run_point_xy s = None"

definition run_ops :: "shape geom_ops" where
  "run_ops =
     \<lparr>buffer = run_buffer, intersects = run_intersects, intersection = Meet,
      area = run_area, unary_union = Join, centroid = run_centroid,
      centroid_nan = (\<lambda>s. False), point_xy = run_point_xy,
      polygon_raises = short_ring_raises\<rparr>"

definition spot_feature :: "real \<Rightarrow> real \<Rightarrow> shape feature" where
  "spot_feature x y = \<lparr>geometry = Spot (x, y), properties = []\<rparr>"

section \<open>Property filter: the empty selection\<close>

text \<open>
  C5. For every collection and every column, the property filter with an empty list of
  allowed values returns the collection itself: the same rows in the same order.
\<close>

theorem property_filter_empty_selection:
  "property_filter gdf selected_column [] = gdf"
  by (simp add: property_filter_def)

section \<open>Overlap merger: every input is counted once\<close>

lemma original_count_merged_feature:
  "original_count (merged_feature ops st) = int (length (current_group st))"
  by (simp add: original_count_def merged_feature_def)

text \<open>
  The inner scan marks exactly the indices it appends to the cluster: the set of processed
  indices and the cluster grow together, by candidates of the scan only.
\<close>

lemma inner_scan_processed:
  "inner_scan ops bs thr js st = Inr st' \<Longrightarrow> finite (processed st) \<Longrightarrow>
     finite (processed st') \<and>
     card (processed st') + length (current_group st) = card (processed st) + length (current_group st') \<and>
     processed st \<subseteq> processed st' \<and> processed st' \<subseteq> processed st \<union> set js \<and>
     length (current_group st) \<le> length (current_group st')"
proof (induction js arbitrary: st)
  case Nil
  then show ?case by simp
next
  case (Cons j js)
  show ?case
  proof (cases "j \<in> processed st")
    case True
    with Cons.prems have "inner_scan ops bs thr js st = Inr st'" by simp
    from Cons.IH [OF this Cons.prems(2)] show ?thesis by auto
  next
    case False
    show ?thesis
    proof (cases "overlap_test ops thr (current_geom st) (bs ! j)")
      case (Inl e)
      with False Cons.prems show ?thesis by simp
    next
      case (Inr b)
      show ?thesis
      proof (cases b)
        case True
        let ?st = "absorb ops (bs ! j) j st"
        from True Inr False Cons.prems have run: "inner_scan ops bs thr js ?st = Inr st'" by simp
        have fin: "finite (processed ?st)" using Cons.prems(2) by (simp add: absorb_def)
        from Cons.IH [OF run fin] False Cons.prems(2) show ?thesis
          by (auto simp: absorb_def)
      next
        case F: False
        from F Inr False Cons.prems have "inner_scan ops bs thr js st = Inr st'" by simp
        from Cons.IH [OF this Cons.prems(2)] show ?thesis by auto
      qed
    qed
  qed
qed

text \<open>
  The outer loop: the counts emitted so far grow with the set of processed indices, and
  every index of the loop ends processed.
\<close>

lemma merge_loop_counts:
  "merge_loop ops bs thr is (m, p) = Inr (m', p') \<Longrightarrow> finite p \<Longrightarrow>
     finite p' \<and>
     sum_list (map original_count m') + int (card p) = sum_list (map original_count m) + int (card p') \<and>
     p \<union> set is \<subseteq> p' \<and> p' \<subseteq> p \<union> set is \<union> {..< length bs}"
proof (induction "is" arbitrary: m p)
  case Nil
  then show ?case by simp
next
  case (Cons i "is")
  show ?case
  proof (cases "i \<in> p")
    case True
    with Cons.prems have "merge_loop ops bs thr is (m, p) = Inr (m', p')" by simp
    from Cons.IH [OF this Cons.prems(2)] True show ?thesis by auto
  next
    case False
    let ?st0 = "\<lparr>current_group = [i], current_geom = bs ! i, processed = p\<rparr>"
    show ?thesis
    proof (cases "inner_scan ops bs thr [Suc i ..< length bs] ?st0")
      case (Inl e)
      with False Cons.prems show ?thesis by simp
    next
      case (Inr st)
      from inner_scan_processed [OF Inr] Cons.prems(2)
      have st: "finite (processed st)"
        "card (processed st) + 1 = card p + length (current_group st)"
        "p \<subseteq> processed st" "processed st \<subseteq> p \<union> {Suc i ..< length bs}"
        "1 \<le> length (current_group st)"
        by auto
      then have ne: "current_group st \<noteq> []" by auto
      have notin: "i \<notin> processed st" using st(4) False by auto
      from Inr False Cons.prems ne
      have run: "merge_loop ops bs thr is (m @ [merged_feature ops st], insert i (processed st)) = Inr (m', p')"
        by simp
      have fin: "finite (insert i (processed st))" using st(1) by simp
      from Cons.IH [OF run fin] st notin show ?thesis
        by (auto simp: original_count_merged_feature)
    qed
  qed
qed

text \<open>
  C2. Whenever the merger returns its merged features, for every input collection, buffer
  distance and threshold, the sum of \<^verbatim>\<open>original_count\<close> over the merged features is the
  number of input features.
\<close>

theorem merge_features_count_sum:
  assumes "merge_features ops gdf buffer_distance overlap_threshold = Inr merged"
  shows "sum_list (map original_count merged) = int (length gdf)"
proof -
  let ?bs = "map (\<lambda>row. buffer ops (geometry row) (real_of_int buffer_distance)) gdf"
  from assms obtain p' where
    run: "merge_loop ops ?bs overlap_threshold [0 ..< length ?bs] ([], {}) = Inr (merged, p')"
    by (auto simp: merge_features_def Let_def split: sum.splits)
  from merge_loop_counts [OF run] have
    "sum_list (map original_count merged) = int (card p')" and "{..< length ?bs} \<subseteq> p'" and "p' \<subseteq> {..< length ?bs}"
    by (auto simp: atLeast0LessThan)
  then have "p' = {..< length gdf}" by auto
  with \<open>sum_list (map original_count merged) = int (card p')\<close> show ?thesis by simp
qed

theorem merge_features_count_sum_witness:
  "merge_features grid_ops [point_feature 0 0, point_feature 1 0, point_feature 10 10] 1 25 =
     Inr [\<lparr>geometry = GCells [(- 1, - 1), (- 1, 0), (0, - 1), (0, 0), (1, - 1), (1, 0)],
           properties = [(''original_count'', VInt 2), (''center'', VPoint (1 / 2, 0))]\<rparr>,
          \<lparr>geometry = GCells [(9, 9), (9, 10), (10, 9), (10, 10)],
           properties = [(''original_count'', VInt 1), (''center'', VPoint (10, 10))]\<rparr>] \<and>
   sum_list (map original_count
         [\<lparr>geometry = GCells [(- 1, - 1), (- 1, 0), (0, - 1), (0, 0), (1, - 1), (1, 0)],
           properties = [(''original_count'', VInt 2), (''center'', VPoint (1 / 2, 0))]\<rparr>,
          \<lparr>geometry = GCells [(9, 9), (9, 10), (10, 9), (10, 10)],
           properties = [(''original_count'', VInt 1), (''center'', VPoint (10, 10))]\<rparr>]) =
     int (length [point_feature 0 0, point_feature 1 0, point_feature 10 10])"
  proof -
  have run: "merge_features grid_ops [point_feature 0 0, point_feature 1 0, point_feature 10 10] 1 25 =
     Inr [\<lparr>geometry = GCells [(- 1, - 1), (- 1, 0), (0, - 1), (0, 0), (1, - 1), (1, 0)],
           properties = [(''original_count'', VInt 2), (''center'', VPoint (1 / 2, 0))]\<rparr>,
          \<lparr>geometry = GCells [(9, 9), (9, 10), (10, 9), (10, 10)],
           properties = [(''original_count'', VInt 1), (''center'', VPoint (10, 10))]\<rparr>]"
    by code_simp
  show ?thesis
    using run merge_features_count_sum [OF run] by simp
qed

text \<open>
  The merger returns whenever no division of line 150 meets a zero \<^verbatim>\<open>min_area\<close>: the
  loops are bounded, so nothing else keeps it from returning.
\<close>

lemma inner_scan_returns:
  assumes "\<And>a b. intersects ops a b \<Longrightarrow> min (area ops a) (area ops b) \<noteq> 0"
  shows "\<exists>st'. inner_scan ops bs thr js st = Inr st'"
proof (induction js arbitrary: st)
  case Nil
  then show ?case by simp
next
  case (Cons j js)
  have "\<exists>b. overlap_test ops thr (current_geom st) (bs ! j) = Inr b"
    using assms [of "current_geom st" "bs ! j"] by (auto simp: overlap_test_def Let_def)
  then obtain b where "overlap_test ops thr (current_geom st) (bs ! j) = Inr b" ..
  with Cons.IH show ?case by (cases b) simp_all
qed

lemma merge_loop_returns:
  assumes "\<And>a b. intersects ops a b \<Longrightarrow> min (area ops a) (area ops b) \<noteq> 0"
  shows "\<exists>r. merge_loop ops bs thr is (m, p) = Inr r"
proof (induction "is" arbitrary: m p)
  case Nil
  then show ?case by simp
next
  case (Cons i "is")
  obtain st where "inner_scan ops bs thr [Suc i ..< length bs]
      \<lparr>current_group = [i], current_geom = bs ! i, processed = p\<rparr> = Inr st"
    using inner_scan_returns [OF assms] by blast
  with Cons.IH show ?case by simp
qed

lemma merge_features_returns:
  assumes "\<And>a b. intersects ops a b \<Longrightarrow> min (area ops a) (area ops b) \<noteq> 0"
  shows "\<exists>merged. merge_features ops gdf buffer_distance overlap_threshold = Inr merged"
proof -
  let ?bs = "map (\<lambda>row. buffer ops (geometry row) (real_of_int buffer_distance)) gdf"
  obtain r where "merge_loop ops ?bs overlap_threshold [0 ..< length ?bs] ([], {}) = Inr r"
    using merge_loop_returns [OF assms] by blast
  then show ?thesis
    by (cases r) (simp add: merge_features_def Let_def)
qed

section \<open>Overlap merger: the test of the inner scan\<close>

lemma percentage_below_100:
  fixes a m :: real
  assumes "0 < m" and "a \<le> m"
  shows "\<not> 100 < a / m * 100"
proof -
  from assms have "a / m \<le> 1" by simp
  then have "a / m * 100 \<le> 1 * 100" by (rule mult_right_mono) simp
  then show ?thesis by simp
qed

lemma overlap_test_positive:
  assumes "0 < min (area ops cur) (area ops g)"
  shows "overlap_test ops thr cur g =
     Inr (intersects ops cur g \<and> spec_overlap_percentage ops cur g > real_of_int thr)"
proof -
  from assms have "min (area ops cur) (area ops g) \<noteq> 0" by linarith
  then show ?thesis
    by (simp add: overlap_test_def spec_overlap_percentage_def Let_def)
qed

text \<open>
  The guard \<^verbatim>\<open>current_geom.intersects(test_geom)\<close> of line 147 changes nothing where
  geometries that do not intersect have an intersection of area 0, the threshold is not
  negative and the areas compared are positive: there the test of the script is the
  comparison the specification writes.
\<close>

lemma overlap_test_spec:
  assumes "\<not> intersects ops cur g \<Longrightarrow> area ops (intersection ops cur g) = 0"
    and "0 \<le> thr"
    and "0 < min (area ops cur) (area ops g)"
  shows "overlap_test ops thr cur g = Inr (spec_overlap_percentage ops cur g > real_of_int thr)"
proof (cases "intersects ops cur g")
  case True
  with overlap_test_positive [OF assms(3)] show ?thesis by simp
next
  case False
  with assms(1) have "spec_overlap_percentage ops cur g = 0"
    by (simp add: spec_overlap_percentage_def)
  with False assms(2) show ?thesis
    by (simp add: overlap_test_def)
qed

text \<open>
  C3. In the inner scan a candidate \<open>j\<close> that is not yet processed is absorbed if and
  only if \<^verbatim>\<open>intersection_area / min(area(current_geom), area(buffered_j)) * 100\<close> is
  strictly greater than the threshold. An absorbed \<open>j\<close> joins the cluster and the
  processed set, \<^verbatim>\<open>current_geom\<close> becomes the union of \<^verbatim>\<open>current_geom\<close> and
  \<^verbatim>\<open>buffered_j\<close>, and the rest of the scan compares against that union. The library is
  assumed to give area 0 to the intersection of geometries that do not intersect; the
  threshold is not negative (the slider starts at 0) and the smaller area is positive.
\<close>

theorem inner_scan_absorbs_iff:
  assumes "j \<notin> processed st"
    and "\<not> intersects ops (current_geom st) (buffered ! j) \<Longrightarrow>
           area ops (intersection ops (current_geom st) (buffered ! j)) = 0"
    and "0 \<le> thr"
    and "0 < min (area ops (current_geom st)) (area ops (buffered ! j))"
  shows "inner_scan ops buffered thr (j # js) st =
     (if spec_overlap_percentage ops (current_geom st) (buffered ! j) > real_of_int thr
      then inner_scan ops buffered thr js
             (st\<lparr>current_group := current_group st @ [j],
                 current_geom := unary_union ops [current_geom st, buffered ! j],
                 processed := insert j (processed st)\<rparr>)
      else inner_scan ops buffered thr js st)"
  using assms(1) overlap_test_spec [OF assms(2) assms(3) assms(4)]
  by (simp add: absorb_def)

text \<open>
  At the concrete blocks of four cells that share two cells the percentage is exactly 50:
  the candidate is left out at threshold 50 and absorbed at threshold 25. A block that
  does not intersect the cluster is left out even at threshold 0.
\<close>

theorem inner_scan_absorbs_iff_witness:
  "spec_overlap_percentage grid_ops
     (GCells [(- 1, - 1), (- 1, 0), (0, - 1), (0, 0)]) (GCells [(0, - 1), (0, 0), (1, - 1), (1, 0)]) = 50 \<and>
   inner_scan grid_ops
     [GCells [(- 1, - 1), (- 1, 0), (0, - 1), (0, 0)], GCells [(0, - 1), (0, 0), (1, - 1), (1, 0)]] 50 [1]
     \<lparr>current_group = [0], current_geom = GCells [(- 1, - 1), (- 1, 0), (0, - 1), (0, 0)], processed = {}\<rparr> =
     Inr \<lparr>current_group = [0], current_geom = GCells [(- 1, - 1), (- 1, 0), (0, - 1), (0, 0)],
          processed = {}\<rparr> \<and>
   inner_scan grid_ops
     [GCells [(- 1, - 1), (- 1, 0), (0, - 1), (0, 0)], GCells [(0, - 1), (0, 0), (1, - 1), (1, 0)]] 25 [1]
     \<lparr>current_group = [0], current_geom = GCells [(- 1, - 1), (- 1, 0), (0, - 1), (0, 0)], processed = {}\<rparr> =
     Inr \<lparr>current_group = [0, 1],
          current_geom = GCells [(- 1, - 1), (- 1, 0), (0, - 1), (0, 0), (1, - 1), (1, 0)],
          processed = {1}\<rparr> \<and>
   \<not> intersects grid_ops (GCells [(- 1, - 1), (- 1, 0), (0, - 1), (0, 0)])
        (GCells [(9, 9), (9, 10), (10, 9), (10, 10)]) \<and>
   inner_scan grid_ops
     [GCells [(- 1, - 1), (- 1, 0), (0, - 1), (0, 0)], GCells [(9, 9), (9, 10), (10, 9), (10, 10)]] 0 [1]
     \<lparr>current_group = [0], current_geom = GCells [(- 1, - 1), (- 1, 0), (0, - 1), (0, 0)], processed = {}\<rparr> =
     Inr \<lparr>current_group = [0], current_geom = GCells [(- 1, - 1), (- 1, 0), (0, - 1), (0, 0)],
          processed = {}\<rparr>"
proof -
  let ?b0 = "GCells [(- 1, - 1), (- 1, 0), (0, - 1), (0, 0)]"
  let ?b1 = "GCells [(0, - 1), (0, 0), (1, - 1), (1, 0)]"
  let ?st = "\<lparr>current_group = [0], current_geom = ?b0, processed = {}\<rparr>"
  have h1: "(1::nat) \<notin> processed ?st" by simp
  have isect: "intersects grid_ops ?b0 ?b1" by code_simp
  have h2: "\<not> intersects grid_ops (current_geom ?st) ([?b0, ?b1] ! 1) \<Longrightarrow>
      area grid_ops (intersection grid_ops (current_geom ?st) ([?b0, ?b1] ! 1)) = 0"
    using isect by simp
  have h3: "(0::int) \<le> 50" and h3': "(0::int) \<le> 25" by simp_all
  have areas: "area grid_ops ?b0 = 4" "area grid_ops ?b1 = 4" by code_simp+
  have h4: "0 < min (area grid_ops (current_geom ?st)) (area grid_ops ([?b0, ?b1] ! 1))"
    using areas by simp
  have pct: "spec_overlap_percentage grid_ops ?b0 ?b1 = 50" by code_simp
  have un: "unary_union grid_ops [?b0, ?b1] =
      GCells [(- 1, - 1), (- 1, 0), (0, - 1), (0, 0), (1, - 1), (1, 0)]" by code_simp
  let ?b2 = "GCells [(9, 9), (9, 10), (10, 9), (10, 10)]"
  have far: "\<not> intersects grid_ops ?b0 ?b2" by code_simp
  have zero: "area grid_ops (intersection grid_ops ?b0 ?b2) = 0" by code_simp
  have g2: "\<not> intersects grid_ops (current_geom ?st) ([?b0, ?b2] ! 1) \<Longrightarrow>
      area grid_ops (intersection grid_ops (current_geom ?st) ([?b0, ?b2] ! 1)) = 0"
    using zero by simp
  have area2: "area grid_ops ?b2 = 4" by code_simp
  have g4: "0 < min (area grid_ops (current_geom ?st)) (area grid_ops ([?b0, ?b2] ! 1))"
    using areas area2 by simp
  have pct2: "spec_overlap_percentage grid_ops ?b0 ?b2 = 0" by code_simp
  have h0: "(0::int) \<le> 0" by simp
  show ?thesis
    using inner_scan_absorbs_iff [of 1 ?st grid_ops "[?b0, ?b1]" 50 "[]", OF h1 h2 h3 h4]
      inner_scan_absorbs_iff [of 1 ?st grid_ops "[?b0, ?b1]" 25 "[]", OF h1 h2 h3' h4]
      inner_scan_absorbs_iff [of 1 ?st grid_ops "[?b0, ?b2]" 0 "[]", OF h1 g2 h0 g4]
      pct un far pct2
    by simp
qed

section \<open>Overlap merger: threshold 100\<close>

text \<open>
  At threshold 100, for positive areas, the test of lines 147-152 asks whether the
  intersection area the library reports is above the smaller of the two reported areas.
\<close>

lemma percentage_above_100:
  fixes a m :: real
  assumes "0 < m"
  shows "(100 < a / m * 100) = (m < a)"
  using assms by (simp add: pos_less_divide_eq)

lemma overlap_test_100_iff:
  assumes "0 < min (area ops cur) (area ops g)"
  shows "overlap_test ops 100 cur g =
     Inr (intersects ops cur g \<and>
          min (area ops cur) (area ops g) < area ops (intersection ops cur g))"
proof -
  define a where "a = area ops (intersection ops cur g)"
  define m where "m = min (area ops cur) (area ops g)"
  from assms have pos: "0 < m" by (simp only: m_def)
  have "spec_overlap_percentage ops cur g = a / m * 100"
    by (simp only: spec_overlap_percentage_def a_def m_def)
  with percentage_above_100 [OF pos, of a]
  have "(real_of_int 100 < spec_overlap_percentage ops cur g) = (m < a)" by simp
  with overlap_test_positive [OF assms, of 100] show ?thesis
    by (simp only: a_def m_def)
qed

text \<open>
  The claim C4 as the specification states it fails. The buffers of radius 25 around
  (0,0) and (0,1e-15) are distinct and neither contains the other: the point (0,-25) lies
  in the first only, the point (0,25+1e-15) in the second only. The library reports their
  intersection with an area above both of theirs, the test passes at threshold 100, and
  the merger returns one feature with \<^verbatim>\<open>original_count\<close> 2.
\<close>

theorem threshold_100_counterexample:
  "overlap_test run_ops 100 (Disc (0, 0) 25) (Disc (0, 1 / 10 ^ 15) 25) = Inr True \<and>
   region (Disc (0, 0) 25) \<noteq> region (Disc (0, 1 / 10 ^ 15) 25) \<and>
   \<not> region (Disc (0, 0) 25) \<subseteq> region (Disc (0, 1 / 10 ^ 15) 25) \<and>
   \<not> region (Disc (0, 1 / 10 ^ 15) 25) \<subseteq> region (Disc (0, 0) 25) \<and>
   (case merge_features run_ops [spot_feature 0 0, spot_feature 0 (1 / 10 ^ 15)] 25 100 of
      Inl e \<Rightarrow> [] | Inr merged \<Rightarrow> map original_count merged) = [2]"
proof -
  let ?b1 = "Disc (0, 0) 25"
  let ?b2 = "Disc (0, 1 / 10 ^ 15) 25"
  have t: "overlap_test run_ops 100 ?b1 ?b2 = Inr True" by code_simp
  have in1: "(0, - 25) \<in> region ?b1" by simp
  have out2: "(0, - 25) \<notin> region ?b2" by (simp add: power2_eq_square)
  have in2: "(0, 25 + 1 / 10 ^ 15) \<in> region ?b2" by simp
  have out1: "(0, 25 + 1 / 10 ^ 15) \<notin> region ?b1" by (simp add: power2_eq_square)
  from in1 out2 have n12: "\<not> region ?b1 \<subseteq> region ?b2" by blast
  from in2 out1 have n21: "\<not> region ?b2 \<subseteq> region ?b1" by blast
  from n12 have ne: "region ?b1 \<noteq> region ?b2" by blast
  have run: "(case merge_features run_ops [spot_feature 0 0, spot_feature 0 (1 / 10 ^ 15)] 25 100 of
      Inl e \<Rightarrow> [] | Inr merged \<Rightarrow> map original_count merged) = [2]" by code_simp
  from t ne n12 n21 run show ?thesis by blast
qed

text \<open>
  C4, amended. At threshold 100, where the smaller of the two areas is positive, a
  candidate is absorbed exactly when it is not yet processed, it intersects the cluster
  and the reported area of the intersection is strictly greater than the smaller of the
  two reported areas; the cluster then continues with the union. Containment of one
  geometry in the other is neither needed nor enough.
\<close>

theorem threshold_100_absorbs_iff:
  assumes "0 < min (area ops (current_geom st)) (area ops (buffered ! j))"
  shows "inner_scan ops buffered 100 (j # js) st =
     (if j \<notin> processed st \<and> intersects ops (current_geom st) (buffered ! j) \<and>
         min (area ops (current_geom st)) (area ops (buffered ! j))
           < area ops (intersection ops (current_geom st) (buffered ! j))
      then inner_scan ops buffered 100 js
             (st\<lparr>current_group := current_group st @ [j],
                 current_geom := unary_union ops [current_geom st, buffered ! j],
                 processed := insert j (processed st)\<rparr>)
      else inner_scan ops buffered 100 js st)"
proof (cases "intersects ops (current_geom st) (buffered ! j) \<and>
    min (area ops (current_geom st)) (area ops (buffered ! j))
      < area ops (intersection ops (current_geom st) (buffered ! j))")
  case True
  with overlap_test_100_iff [OF assms]
  have "overlap_test ops 100 (current_geom st) (buffered ! j) = Inr True" by simp
  with True show ?thesis by (simp add: absorb_def)
next
  case False
  with overlap_test_100_iff [OF assms]
  have "overlap_test ops 100 (current_geom st) (buffered ! j) = Inr False" by simp
  with False show ?thesis by auto
qed

theorem threshold_100_absorbs_iff_witness:
  "inner_scan grid_ops
     [GCells [(- 1, - 1), (- 1, 0), (0, - 1), (0, 0)], GCells [(0, - 1), (0, 0), (1, - 1), (1, 0)]] 100 [1]
     \<lparr>current_group = [0], current_geom = GCells [(- 1, - 1), (- 1, 0), (0, - 1), (0, 0)], processed = {}\<rparr> =
     Inr \<lparr>current_group = [0], current_geom = GCells [(- 1, - 1), (- 1, 0), (0, - 1), (0, 0)],
          processed = {}\<rparr> \<and>
   inner_scan run_ops [Disc (0, 0) 25, Disc (0, 1 / 10 ^ 15) 25] 100 [1]
     \<lparr>current_group = [0], current_geom = Disc (0, 0) 25, processed = {}\<rparr> =
     Inr \<lparr>current_group = [0, 1],
          current_geom = Join [Disc (0, 0) 25, Disc (0, 1 / 10 ^ 15) 25],
          processed = {1}\<rparr>"
proof -
  let ?g0 = "GCells [(- 1, - 1), (- 1, 0), (0, - 1), (0, 0)]"
  let ?g1 = "GCells [(0, - 1), (0, 0), (1, - 1), (1, 0)]"
  let ?gst = "\<lparr>current_group = [0], current_geom = ?g0, processed = {}\<rparr>"
  let ?b1 = "Disc (0, 0) 25"
  let ?b2 = "Disc (0, 1 / 10 ^ 15) 25"
  let ?rst = "\<lparr>current_group = [0], current_geom = ?b1, processed = {}\<rparr>"
  have ga: "area grid_ops ?g0 = 4" "area grid_ops ?g1 = 4" by code_simp+
  have gi: "area grid_ops (intersection grid_ops ?g0 ?g1) = 2" by code_simp
  have gh: "0 < min (area grid_ops (current_geom ?gst)) (area grid_ops ([?g0, ?g1] ! 1))"
    using ga by simp
  have ra: "area run_ops ?b1 = 1960.3428065912117" "area run_ops ?b2 = 1960.3428065912117"
    by code_simp+
  have ri: "area run_ops (intersection run_ops ?b1 ?b2) = 1960.3428065912126" by code_simp
  have rx: "intersects run_ops ?b1 ?b2" by code_simp
  have ru: "unary_union run_ops [?b1, ?b2] = Join [?b1, ?b2]" by code_simp
  have rh: "0 < min (area run_ops (current_geom ?rst)) (area run_ops ([?b1, ?b2] ! 1))"
    using ra by simp
  have g: "inner_scan grid_ops [?g0, ?g1] 100 [1] ?gst = Inr ?gst"
    using threshold_100_absorbs_iff [of grid_ops ?gst "[?g0, ?g1]" 1 "[]", OF gh] ga gi
    by simp
  have r: "inner_scan run_ops [?b1, ?b2] 100 [1] ?rst =
      Inr \<lparr>current_group = [0, 1], current_geom = Join [?b1, ?b2], processed = {1}\<rparr>"
    using threshold_100_absorbs_iff [of run_ops ?rst "[?b1, ?b2]" 1 "[]", OF rh] ra ri rx ru
    by simp
  from g r show ?thesis by blast
qed

text \<open>
  Where the library never reports an intersection larger than the smaller geometry, the
  strict comparison absorbs nothing at threshold 100, full cover included.
\<close>

lemma threshold_100_absorbs_nothing:
  assumes "area ops (intersection ops cur g) \<le> min (area ops cur) (area ops g)"
    and "0 \<le> min (area ops cur) (area ops g)"
  shows "overlap_test ops 100 cur g \<noteq> Inr True"
proof (cases "min (area ops cur) (area ops g) = 0")
  case True
  then show ?thesis by (simp add: overlap_test_def Let_def)
next
  case False
  define a where "a = area ops (intersection ops cur g)"
  define m where "m = min (area ops cur) (area ops g)"
  from False have "m \<noteq> 0" by (simp only: m_def not_False_eq_True)
  moreover from assms(2) have "0 \<le> m" by (simp only: m_def)
  ultimately have pos: "0 < m" by linarith
  from assms(1) have le: "a \<le> m" by (simp only: a_def m_def)
  from percentage_below_100 [OF pos le] have "\<not> 100 < a / m * 100" .
  then have "\<not> real_of_int 100 < spec_overlap_percentage ops cur g"
    by (simp add: spec_overlap_percentage_def a_def m_def)
  moreover from pos have "0 < min (area ops cur) (area ops g)" by (simp only: m_def)
  ultimately show ?thesis
    using overlap_test_positive [of ops cur g 100] by simp
qed

section \<open>Overlap merger: the fields of a merged feature\<close>

lemma merge_loop_features:
  "merge_loop ops bs thr is (m, p) = Inr (m', p') \<Longrightarrow>
     set m' \<subseteq> set m \<union> {f. \<exists>st. current_group st \<noteq> [] \<and> f = merged_feature ops st}"
proof (induction "is" arbitrary: m p)
  case Nil
  then show ?case by simp
next
  case (Cons i "is")
  show ?case
  proof (cases "i \<in> p")
    case True
    with Cons.prems have "merge_loop ops bs thr is (m, p) = Inr (m', p')" by simp
    from Cons.IH [OF this] show ?thesis .
  next
    case False
    let ?st0 = "\<lparr>current_group = [i], current_geom = bs ! i, processed = p\<rparr>"
    show ?thesis
    proof (cases "inner_scan ops bs thr [Suc i ..< length bs] ?st0")
      case (Inl e)
      with False Cons.prems show ?thesis by simp
    next
      case (Inr st)
      show ?thesis
      proof (cases "current_group st = []")
        case True
        with Inr False Cons.prems
        have "merge_loop ops bs thr is (m, insert i (processed st)) = Inr (m', p')" by simp
        from Cons.IH [OF this] show ?thesis .
      next
        case ne: False
        with Inr False Cons.prems
        have "merge_loop ops bs thr is (m @ [merged_feature ops st], insert i (processed st))
                = Inr (m', p')" by simp
        from Cons.IH [OF this] ne show ?thesis by auto
      qed
    qed
  qed
qed

text \<open>
  C10. Every feature the merger emits has, beside its geometry, exactly the two columns
  \<^verbatim>\<open>original_count\<close> and \<^verbatim>\<open>center\<close>, in this order: a count of at least 1 and the
  centroid of the merged geometry. No property of an input feature is carried over.
\<close>

theorem merged_feature_fields:
  assumes "merge_features ops gdf buffer_distance overlap_threshold = Inr merged"
    and "f \<in> set merged"
  shows "map fst (properties f) = [''original_count'', ''center''] \<and>
         (\<exists>n \<ge> 1. properties f =
            [(''original_count'', VInt n), (''center'', VPoint (centroid ops (geometry f)))])"
proof -
  let ?bs = "map (\<lambda>row. buffer ops (geometry row) (real_of_int buffer_distance)) gdf"
  from assms(1) obtain p' where
    "merge_loop ops ?bs overlap_threshold [0 ..< length ?bs] ([], {}) = Inr (merged, p')"
    by (auto simp: merge_features_def Let_def split: sum.splits)
  from merge_loop_features [OF this] assms(2)
  obtain st where st: "current_group st \<noteq> []" "f = merged_feature ops st" by auto
  from st(1) have "1 \<le> int (length (current_group st))"
    by (cases "current_group st") simp_all
  with st(2) show ?thesis by (simp add: merged_feature_def)
qed

theorem merged_feature_fields_witness:
  "merge_features grid_ops [point_feature 0 0, point_feature 1 0, point_feature 10 10] 1 25 =
     Inr [\<lparr>geometry = GCells [(- 1, - 1), (- 1, 0), (0, - 1), (0, 0), (1, - 1), (1, 0)],
           properties = [(''original_count'', VInt 2), (''center'', VPoint (1 / 2, 0))]\<rparr>,
          \<lparr>geometry = GCells [(9, 9), (9, 10), (10, 9), (10, 10)],
           properties = [(''original_count'', VInt 1), (''center'', VPoint (10, 10))]\<rparr>] \<and>
   map fst (properties (point_feature 0 0)) = [''name''] \<and>
   map fst (properties
      \<lparr>geometry = GCells [(- 1, - 1), (- 1, 0), (0, - 1), (0, 0), (1, - 1), (1, 0)],
       properties = [(''original_count'', VInt 2), (''center'', VPoint (1 / 2, 0))]\<rparr>) =
     [''original_count'', ''center'']"
proof -
  let ?f = "\<lparr>geometry = GCells [(- 1, - 1), (- 1, 0), (0, - 1), (0, 0), (1, - 1), (1, 0)],
       properties = [(''original_count'', VInt 2), (''center'', VPoint (1 / 2, 0))]\<rparr>"
  let ?g = "\<lparr>geometry = GCells [(9, 9), (9, 10), (10, 9), (10, 10)],
           properties = [(''original_count'', VInt 1), (''center'', VPoint (10, 10))]\<rparr>"
  have run: "merge_features grid_ops [point_feature 0 0, point_feature 1 0, point_feature 10 10] 1 25 =
     Inr [?f, ?g]"
    by code_simp
  have mem: "?f \<in> set [?f, ?g]" by simp
  show ?thesis
    using run merged_feature_fields [OF run mem] by (simp add: point_feature_def)
qed

section \<open>Overlap merger: empty and degenerate inputs\<close>

text \<open>
  The loop alone returns the empty list on the empty collection. Where no buffer
  intersects a later one, it passes every feature through with count 1.
\<close>

lemma merge_features_empty:
  "merge_features ops [] buffer_distance overlap_threshold = Inr []"
  by (simp add: merge_features_def)

lemma inner_scan_no_intersection:
  "(\<And>j. j \<in> set js \<Longrightarrow> \<not> intersects ops (current_geom st) (bs ! j)) \<Longrightarrow>
     inner_scan ops bs thr js st = Inr st"
  by (induction js) (simp_all add: overlap_test_def)

lemma merge_loop_no_intersection:
  assumes "\<And>i j. i < j \<Longrightarrow> j < length bs \<Longrightarrow> \<not> intersects ops (bs ! i) (bs ! j)"
  shows "distinct is \<Longrightarrow> set is \<subseteq> {..< length bs} \<Longrightarrow> set is \<inter> p = {} \<Longrightarrow>
     merge_loop ops bs thr is (m, p) =
       Inr (m @ map (\<lambda>i. \<lparr>geometry = bs ! i,
                            properties = [(''original_count'', VInt 1),
                                          (''center'', VPoint (centroid ops (bs ! i)))]\<rparr>) is,
            p \<union> set is)"
proof (induction "is" arbitrary: m p)
  case Nil
  then show ?case by simp
next
  case (Cons i "is")
  let ?st = "\<lparr>current_group = [i], current_geom = bs ! i, processed = p\<rparr>"
  from Cons.prems have i: "i < length bs" "i \<notin> p" by auto
  have scan: "inner_scan ops bs thr [Suc i ..< length bs] ?st = Inr ?st"
    by (rule inner_scan_no_intersection) (use assms in auto)
  from Cons.prems have rest: "distinct is" "set is \<subseteq> {..< length bs}" "set is \<inter> insert i p = {}"
    by auto
  from Cons.IH [OF rest] i scan show ?case
    by (simp add: merged_feature_def)
qed

lemma merge_features_disjoint:
  assumes "\<And>i j. i < j \<Longrightarrow> j < length gdf \<Longrightarrow>
      \<not> intersects ops (buffer ops (geometry (gdf ! i)) (real_of_int buffer_distance))
                       (buffer ops (geometry (gdf ! j)) (real_of_int buffer_distance))"
  shows "merge_features ops gdf buffer_distance overlap_threshold =
      Inr (map (\<lambda>row. \<lparr>geometry = buffer ops (geometry row) (real_of_int buffer_distance),
                         properties =
                           [(''original_count'', VInt 1),
                            (''center'', VPoint (centroid ops
                               (buffer ops (geometry row) (real_of_int buffer_distance))))]\<rparr>)
             gdf)"
proof -
  let ?buf = "\<lambda>row. buffer ops (geometry row) (real_of_int buffer_distance)"
  let ?bs = "map ?buf gdf"
  let ?single = "\<lambda>g. \<lparr>geometry = g,
      properties = [(''original_count'', VInt 1), (''center'', VPoint (centroid ops g))]\<rparr>"
  have disj: "\<not> intersects ops (?bs ! i) (?bs ! j)" if "i < j" "j < length ?bs" for i j
    using that assms [of i j] by simp
  have "merge_loop ops ?bs overlap_threshold [0 ..< length ?bs] ([], {}) =
          Inr ([] @ map (\<lambda>i. ?single (?bs ! i)) [0 ..< length ?bs], {} \<union> set [0 ..< length ?bs])"
    by (rule merge_loop_no_intersection [OF disj]) auto
  moreover have "map (\<lambda>i. ?single (?bs ! i)) [0 ..< length ?bs] = map ?single ?bs"
    by (rule nth_equalityI) simp_all
  ultimately show ?thesis
    by (simp add: merge_features_def Let_def comp_def)
qed

text \<open>
  The maps drawn before the loop stop the block first. The map of line 90 is centred on
  the mean of the centroids, which is NaN on the empty collection, and the circles of
  line 96 are placed on the centroid of each row, which is NaN for an empty geometry.
\<close>

lemma draw_map_empty: "draw_map ops [] = Some ValueError"
  by (simp add: draw_map_def mean_location_def folium_location_def List.map_filter_simps)

lemma draw_map_result: "draw_map ops gs = None \<or> draw_map ops gs = Some ValueError"
  by (simp add: draw_map_def folium_location_def split: option.splits)

lemma first_error_ValueError:
  assumes "Some ValueError \<in> set calls"
    and "\<And>c. c \<in> set calls \<Longrightarrow> c = None \<or> c = Some ValueError"
  shows "first_error calls = Some ValueError"
  using assms
proof (induction calls)
  case Nil
  then show ?case by simp
next
  case (Cons c calls)
  from Cons.prems(2) [of c] have "c = None \<or> c = Some ValueError" by simp
  then show ?case
  proof
    assume "c = Some ValueError"
    then show ?thesis by simp
  next
    assume c: "c = None"
    with Cons.prems(1) have "Some ValueError \<in> set calls" by simp
    moreover have "\<And>d. d \<in> set calls \<Longrightarrow> d = None \<or> d = Some ValueError"
      using Cons.prems(2) by simp
    ultimately have "first_error calls = Some ValueError" by (rule Cons.IH)
    with c show ?thesis by simp
  qed
qed

lemma draw_circles_nan:
  assumes "g \<in> set gs" and "centroid_nan ops g"
  shows "draw_circles ops gs = Some ValueError"
  unfolding draw_circles_def
proof (rule first_error_ValueError)
  from assms show "Some ValueError \<in> set (map (\<lambda>g. folium_location (centroid_location ops g)) gs)"
    by (force simp: folium_location_def centroid_location_def)
next
  fix c assume "c \<in> set (map (\<lambda>g. folium_location (centroid_location ops g)) gs)"
  then show "c = None \<or> c = Some ValueError"
    by (auto simp: folium_location_def split: option.splits)
qed

lemma draw_circles_result: "draw_circles ops gs = None \<or> draw_circles ops gs = Some ValueError"
  by (induction gs) (auto simp: draw_circles_def folium_location_def centroid_location_def)

text \<open>
  C8. On the empty collection, and on every collection that holds a geometry with no
  centroid before or after buffering (an empty geometry, whose buffer has zero area), the
  block under \<^verbatim>\<open>try\<close> raises \<^verbatim>\<open>ValueError\<close> before the loop is reached: the stage yields
  no output collection and does raise.
\<close>

theorem merge_stage_raises:
  assumes "gdf = [] \<or>
     (\<exists>row \<in> set gdf. centroid_nan ops (geometry row) \<or>
        centroid_nan ops (buffer ops (geometry row) (real_of_int buffer_distance)))"
  shows "merge_stage ops gdf buffer_distance overlap_threshold = Inl ValueError"
proof -
  let ?gs = "map geometry gdf"
  let ?bs = "map (\<lambda>row. buffer ops (geometry row) (real_of_int buffer_distance)) gdf"
  let ?calls = "[draw_map ops ?gs, draw_circles ops ?gs, draw_map ops ?gs, draw_circles ops ?bs]"
  have raised: "Some ValueError \<in> set ?calls"
  proof (cases "gdf = []")
    case True
    with draw_map_empty [of ops] show ?thesis by simp
  next
    case False
    with assms obtain row where row: "row \<in> set gdf"
      and nan: "centroid_nan ops (geometry row) \<or>
        centroid_nan ops (buffer ops (geometry row) (real_of_int buffer_distance))"
      by blast
    from nan show ?thesis
    proof
      assume "centroid_nan ops (geometry row)"
      with row have "draw_circles ops ?gs = Some ValueError"
        by (intro draw_circles_nan [of "geometry row"]) simp_all
      then show ?thesis by simp
    next
      assume "centroid_nan ops (buffer ops (geometry row) (real_of_int buffer_distance))"
      with row have "draw_circles ops ?bs = Some ValueError"
        by (intro draw_circles_nan [of "buffer ops (geometry row) (real_of_int buffer_distance)"])
          simp_all
      then show ?thesis by simp
    qed
  qed
  have "first_error ?calls = Some ValueError"
  proof (rule first_error_ValueError [OF raised])
    fix c assume "c \<in> set ?calls"
    with draw_map_result [of ops ?gs] draw_circles_result [of ops ?gs] draw_circles_result [of ops ?bs]
    show "c = None \<or> c = Some ValueError" by auto
  qed
  then show ?thesis by (simp add: merge_stage_def Let_def)
qed

theorem merge_stage_raises_witness:
  "merge_stage grid_ops [] 25 50 = Inl ValueError \<and>
   merge_features grid_ops [] 25 50 = Inr [] \<and>
   reduction_metric (length ([] :: grid_geom feature list)) 0 = Inl ZeroDivisionError \<and>
   centroid_nan grid_ops (geometry (region_feature [])) \<and>
   area grid_ops (buffer grid_ops (geometry (region_feature [])) (real_of_int 25)) = 0 \<and>
   merge_stage grid_ops [point_feature 0 0, region_feature []] 25 50 = Inl ValueError \<and>
   centroid_nan grid_ops (buffer grid_ops (geometry (point_feature 0 0)) (real_of_int 0)) \<and>
   merge_stage grid_ops [point_feature 0 0] 0 50 = Inl ValueError"
proof -
  have e: "([] :: grid_geom feature list) = [] \<or>
      (\<exists>row \<in> set []. centroid_nan grid_ops (geometry row) \<or>
         centroid_nan grid_ops (buffer grid_ops (geometry row) (real_of_int 25)))" by simp
  have n: "centroid_nan grid_ops (geometry (region_feature []))" by code_simp
  then have d: "[point_feature 0 0, region_feature []] = [] \<or>
      (\<exists>row \<in> set [point_feature 0 0, region_feature []].
         centroid_nan grid_ops (geometry row) \<or>
         centroid_nan grid_ops (buffer grid_ops (geometry row) (real_of_int 25)))"
    by simp
  have z: "centroid_nan grid_ops (buffer grid_ops (geometry (point_feature 0 0)) (real_of_int 0))"
    by code_simp
  then have b: "[point_feature 0 0] = [] \<or>
      (\<exists>row \<in> set [point_feature 0 0].
         centroid_nan grid_ops (geometry row) \<or>
         centroid_nan grid_ops (buffer grid_ops (geometry row) (real_of_int 0)))"
    by simp
  have a: "area grid_ops (buffer grid_ops (geometry (region_feature [])) (real_of_int 25)) = 0"
    by code_simp
  have l: "merge_features grid_ops [] 25 50 = Inr []" by code_simp
  have r: "reduction_metric (length ([] :: grid_geom feature list)) 0 = Inl ZeroDivisionError"
    by code_simp
  from merge_stage_raises [OF e, of 50] merge_stage_raises [OF d, of 50]
    merge_stage_raises [OF b, of 50] l r n a z
  show ?thesis by blast
qed

text \<open>
  Behind the maps the statistics divide by the number of input features (line 207): on
  the empty collection this division raises as well.
\<close>

lemma reduction_metric_empty: "reduction_metric 0 n_merged = Inl ZeroDivisionError"
  by (simp add: reduction_metric_def)

text \<open>
  On a collection of points the block returns the merged features and the reduction.
\<close>

lemma merge_stage_returns_example:
  "merge_stage grid_ops [point_feature 0 0, point_feature 1 0, point_feature 10 10] 1 25 =
     Inr ([\<lparr>geometry = GCells [(- 1, - 1), (- 1, 0), (0, - 1), (0, 0), (1, - 1), (1, 0)],
            properties = [(''original_count'', VInt 2), (''center'', VPoint (1 / 2, 0))]\<rparr>,
           \<lparr>geometry = GCells [(9, 9), (9, 10), (10, 9), (10, 10)],
            properties = [(''original_count'', VInt 1), (''center'', VPoint (10, 10))]\<rparr>],
          100 / 3)"
  by code_simp

section \<open>Overlap merger: three features\<close>

text \<open>
  A candidate that intersects the cluster with a percentage above a threshold that is not
  negative is absorbed: the percentage is then positive, so line 150 divides by no zero.
\<close>

lemma overlap_test_absorbs:
  assumes "intersects ops a b" and "0 \<le> thr"
    and "spec_overlap_percentage ops a b > real_of_int thr"
  shows "overlap_test ops thr a b = Inr True"
proof -
  have "min (area ops a) (area ops b) \<noteq> 0"
  proof
    assume "min (area ops a) (area ops b) = 0"
    then have "spec_overlap_percentage ops a b = 0"
      by (simp only: spec_overlap_percentage_def div_by_0 mult_zero_left)
    with assms(2,3) show False by simp
  qed
  with assms(1,3) show ?thesis
    by (simp add: overlap_test_def spec_overlap_percentage_def Let_def)
qed

text \<open>
  C1. The script hands the number entered as the buffer distance to \<^verbatim>\<open>buffer\<close> as it
  is, in the units of the coordinates (lines 113-114); nothing projects the degrees of the
  input to meters. For three features whose buffers overlap in this way (the second
  overlaps the first above the threshold, the third overlaps their union above the
  threshold) the merger emits a single feature with \<^verbatim>\<open>original_count\<close> 3. Discs of
  radius 50 in degrees around (0,0), (0,0.0001) and (10,10) overlap so (two discs of
  radius 50 whose centres are 14.2 apart share about 82 percent of a disc), so the scenario
  of the specification ends in one cluster of three, not in two features. The overlap of
  the discs is the library's computation and is no part of the theorem.
\<close>

theorem merge_features_three_overlapping:
  assumes "0 \<le> thr"
    and "intersects ops (buffer ops (geometry f1) (real_of_int d)) (buffer ops (geometry f2) (real_of_int d))"
    and "spec_overlap_percentage ops
           (buffer ops (geometry f1) (real_of_int d)) (buffer ops (geometry f2) (real_of_int d))
         > real_of_int thr"
    and "intersects ops
           (unary_union ops [buffer ops (geometry f1) (real_of_int d), buffer ops (geometry f2) (real_of_int d)])
           (buffer ops (geometry f3) (real_of_int d))"
    and "spec_overlap_percentage ops
           (unary_union ops [buffer ops (geometry f1) (real_of_int d), buffer ops (geometry f2) (real_of_int d)])
           (buffer ops (geometry f3) (real_of_int d))
         > real_of_int thr"
  shows "merge_features ops [f1, f2, f3] d thr =
     Inr [\<lparr>geometry =
             unary_union ops
               [unary_union ops [buffer ops (geometry f1) (real_of_int d),
                                 buffer ops (geometry f2) (real_of_int d)],
                buffer ops (geometry f3) (real_of_int d)],
           properties =
             [(''original_count'', VInt 3),
              (''center'', VPoint (centroid ops
                 (unary_union ops
                    [unary_union ops [buffer ops (geometry f1) (real_of_int d),
                                      buffer ops (geometry f2) (real_of_int d)],
                     buffer ops (geometry f3) (real_of_int d)])))]\<rparr>]"
proof -
  let ?b1 = "buffer ops (geometry f1) (real_of_int d)"
  let ?b2 = "buffer ops (geometry f2) (real_of_int d)"
  let ?b3 = "buffer ops (geometry f3) (real_of_int d)"
  let ?u = "unary_union ops [?b1, ?b2]"
  have t12: "overlap_test ops thr ?b1 ?b2 = Inr True"
    by (rule overlap_test_absorbs [OF assms(2) assms(1) assms(3)])
  have t123: "overlap_test ops thr ?u ?b3 = Inr True"
    by (rule overlap_test_absorbs [OF assms(4) assms(1) assms(5)])
  show ?thesis
    by (simp add: merge_features_def merged_feature_def absorb_def t12 t123)
qed

theorem merge_features_three_overlapping_witness:
  "spec_overlap_percentage grid_ops
      (buffer grid_ops (geometry (point_feature 0 0)) (real_of_int 2))
      (buffer grid_ops (geometry (point_feature 1 0)) (real_of_int 2)) = 75 \<and>
   spec_overlap_percentage grid_ops
      (unary_union grid_ops [buffer grid_ops (geometry (point_feature 0 0)) (real_of_int 2),
                             buffer grid_ops (geometry (point_feature 1 0)) (real_of_int 2)])
      (buffer grid_ops (geometry (point_feature 2 0)) (real_of_int 2)) = 75 \<and>
   map original_count
     (case merge_features grid_ops [point_feature 0 0, point_feature 1 0, point_feature 2 0] 2 50 of
        Inl e \<Rightarrow> [] | Inr m \<Rightarrow> m) = [3]"
proof -
  let ?b1 = "buffer grid_ops (geometry (point_feature 0 0)) (real_of_int 2)"
  let ?b2 = "buffer grid_ops (geometry (point_feature 1 0)) (real_of_int 2)"
  let ?b3 = "buffer grid_ops (geometry (point_feature 2 0)) (real_of_int 2)"
  have h1: "(0::int) \<le> 50" by simp
  have h2: "intersects grid_ops ?b1 ?b2" by code_simp
  have p12: "spec_overlap_percentage grid_ops ?b1 ?b2 = 75" by code_simp
  have h3: "spec_overlap_percentage grid_ops ?b1 ?b2 > real_of_int 50" using p12 by simp
  have h4: "intersects grid_ops (unary_union grid_ops [?b1, ?b2]) ?b3" by code_simp
  have p123: "spec_overlap_percentage grid_ops (unary_union grid_ops [?b1, ?b2]) ?b3 = 75" by code_simp
  have h5: "spec_overlap_percentage grid_ops (unary_union grid_ops [?b1, ?b2]) ?b3 > real_of_int 50"
    using p123 by simp
  from merge_features_three_overlapping [OF h1 h2 h3 h4 h5] p12 p123 show ?thesis
    by (simp add: original_count_def)
qed

text \<open>
  Had the third buffer stayed clear of the union, as discs of 50 meters around these
  points do, the same loop would emit the two features the scenario expects.
\<close>

lemma merge_features_two_near_one_far:
  assumes "0 \<le> thr"
    and "intersects ops (buffer ops (geometry f1) (real_of_int d)) (buffer ops (geometry f2) (real_of_int d))"
    and "spec_overlap_percentage ops
           (buffer ops (geometry f1) (real_of_int d)) (buffer ops (geometry f2) (real_of_int d))
         > real_of_int thr"
    and "\<not> intersects ops
           (unary_union ops [buffer ops (geometry f1) (real_of_int d), buffer ops (geometry f2) (real_of_int d)])
           (buffer ops (geometry f3) (real_of_int d))"
  shows "map original_count (case merge_features ops [f1, f2, f3] d thr of Inl e \<Rightarrow> [] | Inr m \<Rightarrow> m) = [2, 1]"
proof -
  let ?b1 = "buffer ops (geometry f1) (real_of_int d)"
  let ?b2 = "buffer ops (geometry f2) (real_of_int d)"
  let ?b3 = "buffer ops (geometry f3) (real_of_int d)"
  let ?u = "unary_union ops [?b1, ?b2]"
  have t12: "overlap_test ops thr ?b1 ?b2 = Inr True"
    by (rule overlap_test_absorbs [OF assms(2) assms(1) assms(3)])
  have t123: "overlap_test ops thr ?u ?b3 = Inr False"
    using assms(4) by (simp add: overlap_test_def)
  show ?thesis
    by (simp add: merge_features_def merged_feature_def absorb_def original_count_def t12 t123)
qed

section \<open>Polygon selector: strict interior\<close>

text \<open>
  Every coordinate pair of the ring lies on the edge that starts at it.
\<close>

lemma on_segment_start: "on_segment p (p, q)"
  by (cases p, cases q) simp

lemma vertex_on_boundary:
  assumes "v \<in> set ring"
  shows "on_boundary ring v"
proof -
  from assms obtain i where i: "i < length ring" "ring ! i = v"
    by (auto simp: in_set_conv_nth)
  then have "(v, rotate1 ring ! i) \<in> set (ring_edges ring)"
    by (auto simp: ring_edges_def in_set_zip)
  moreover have "on_segment v (v, rotate1 ring ! i)" by (rule on_segment_start)
  ultimately show ?thesis
    by (auto simp: on_boundary_def list_ex_iff)
qed

text \<open>
  C6. When the selector returns, it keeps exactly the rows whose representative point, the
  centroid of the row's geometry, the polygon contains in its strict interior, in the
  order of the input; a row whose centroid is a vertex of the ring, or lies anywhere on
  its boundary, is not selected.
\<close>

theorem polygon_selector_strict_interior:
  assumes "polygon_selector ops gdf ring = Inr selected"
  shows "selected = filter (\<lambda>row. ring_contains ring (centroid ops (geometry row))) gdf \<and>
         (\<forall>row \<in> set gdf.
            (centroid ops (geometry row) \<in> set ring \<or> on_boundary ring (centroid ops (geometry row)))
            \<longrightarrow> row \<notin> set selected)"
proof -
  from assms have sel: "selected = filter (\<lambda>row. ring_contains ring (centroid ops (geometry row))) gdf"
    by (simp add: polygon_selector_def split: option.splits)
  moreover have "row \<notin> set selected"
    if "centroid ops (geometry row) \<in> set ring \<or> on_boundary ring (centroid ops (geometry row))"
    for row
  proof -
    from that have "on_boundary ring (centroid ops (geometry row))"
      using vertex_on_boundary by blast
    then show ?thesis by (simp add: sel ring_contains_def)
  qed
  ultimately show ?thesis by blast
qed

theorem polygon_selector_strict_interior_witness:
  "polygon_selector grid_ops
     [point_feature 2 2, point_feature 0 0, point_feature 4 2, point_feature 5 5]
     [(0, 0), (4, 0), (4, 4), (0, 4)] = Inr [point_feature 2 2] \<and>
   centroid grid_ops (geometry (point_feature 0 0)) = (0, 0) \<and>
   point_feature 0 0 \<notin> set [point_feature 2 2] \<and>
   on_boundary [(0, 0), (4, 0), (4, 4), (0, 4)] (centroid grid_ops (geometry (point_feature 4 2))) \<and>
   point_feature 4 2 \<notin> set [point_feature 2 2]"
proof -
  let ?gdf = "[point_feature 2 2, point_feature 0 0, point_feature 4 2, point_feature 5 5]"
  let ?ring = "[(0, 0), (4, 0), (4, 4), (0, 4)] :: point list"
  have run: "polygon_selector grid_ops ?gdf ?ring = Inr [point_feature 2 2]" by code_simp
  have c: "centroid grid_ops (geometry (point_feature 0 0)) = (0, 0)" by code_simp
  have b: "on_boundary ?ring (centroid grid_ops (geometry (point_feature 4 2)))" by code_simp
  from polygon_selector_strict_interior [OF run]
  have excluded: "\<forall>row \<in> set ?gdf.
      (centroid grid_ops (geometry row) \<in> set ?ring \<or> on_boundary ?ring (centroid grid_ops (geometry row)))
      \<longrightarrow> row \<notin> set [point_feature 2 2]"
    by (rule conjunct2)
  have m0: "point_feature 0 0 \<in> set ?gdf" and m4: "point_feature 4 2 \<in> set ?gdf" by simp_all
  have v0: "centroid grid_ops (geometry (point_feature 0 0)) \<in> set ?ring" using c by simp
  from excluded m0 v0 have n0: "point_feature 0 0 \<notin> set [point_feature 2 2]" by blast
  from excluded m4 b have n4: "point_feature 4 2 \<notin> set [point_feature 2 2]" by blast
  from run c n0 b n4 show ?thesis by blast
qed

section \<open>Polygon selector: errors\<close>

text \<open>
  A ring with fewer than 3 distinct vertices runs to and fro between at most two points. A
  ray crosses such a ring an even number of times, so the containment modelled above holds
  for no point: every edge between the two points is matched by an edge back.
\<close>

lemma sum_list_edge_differences:
  fixes f :: "'a \<Rightarrow> int"
  shows "length xs = length ys \<Longrightarrow>
     sum_list (map (\<lambda>e. f (snd e) - f (fst e)) (zip xs ys)) = sum_list (map f ys) - sum_list (map f xs)"
  by (induction xs ys rule: list_induct2) simp_all

lemma sum_list_rotate1:
  fixes f :: "'a \<Rightarrow> int"
  shows "sum_list (map f (rotate1 xs)) = sum_list (map f xs)"
  by (cases xs) simp_all

lemma parity_sum_list:
  fixes g :: "'a \<Rightarrow> int"
  shows "even (sum_list (map g es)) = even (length (filter (\<lambda>e. odd (g e)) es))"
  by (induction es) auto

lemma crosses_sym: "crosses p (a, b) = crosses p (b, a)"
proof (cases p, cases a, cases b)
  fix px py ax ay bx "by" :: real
  assume p: "p = (px, py)" and a: "a = (ax, ay)" and b: "b = (bx, by)"
  show ?thesis
  proof (cases "(ay > py) \<noteq> (by > py)")
    case False
    then show ?thesis unfolding p a b by auto
  next
    case True
    then have ne: "by - ay \<noteq> 0" "ay - by \<noteq> 0" by auto
    have "ax + (py - ay) * (bx - ax) / (by - ay) = bx + (py - by) * (ax - bx) / (ay - by)"
      using ne by (simp add: field_simps)
    with True show ?thesis unfolding p a b by auto
  qed
qed

lemma crosses_distinct: "crosses p (a, b) \<Longrightarrow> a \<noteq> b"
  by (cases p, cases a, cases b) auto

lemma even_crossings_two_vertices:
  assumes "set ring \<subseteq> {A, B}"
  shows "even (length (filter (crosses p) (ring_edges ring)))"
proof -
  let ?E = "ring_edges ring"
  define f :: "point \<Rightarrow> int" where "f v = (if v = A then 0 else 1)" for v
  have ends: "fst e \<in> {A, B} \<and> snd e \<in> {A, B}" if "e \<in> set ?E" for e
  proof -
    obtain u v where e: "e = (u, v)" by (cases e)
    with that have "(u, v) \<in> set (zip ring (rotate1 ring))" by (simp add: ring_edges_def)
    then have "u \<in> set ring" "v \<in> set (rotate1 ring)"
      by (rule set_zip_leftD, rule set_zip_rightD)
    with assms e show ?thesis by auto
  qed
  have "sum_list (map (\<lambda>e. f (snd e) - f (fst e)) ?E) = 0"
    unfolding ring_edges_def by (simp add: sum_list_edge_differences sum_list_rotate1)
  then have "even (length (filter (\<lambda>e. odd (f (snd e) - f (fst e))) ?E))"
    using parity_sum_list [of "\<lambda>e. f (snd e) - f (fst e)" ?E] by simp
  moreover have "filter (\<lambda>e. odd (f (snd e) - f (fst e))) ?E = filter (\<lambda>e. fst e \<noteq> snd e) ?E"
  proof (rule filter_cong [OF refl])
    fix e assume "e \<in> set ?E"
    from ends [OF this] show "odd (f (snd e) - f (fst e)) = (fst e \<noteq> snd e)"
      by (auto simp: f_def)
  qed
  ultimately have ev: "even (length (filter (\<lambda>e. fst e \<noteq> snd e) ?E))" by simp
  show ?thesis
  proof (cases "crosses p (A, B)")
    case True
    have "filter (crosses p) ?E = filter (\<lambda>e. fst e \<noteq> snd e) ?E"
    proof (rule filter_cong [OF refl])
      fix e assume "e \<in> set ?E"
      from ends [OF this] have "e = (A, A) \<or> e = (A, B) \<or> e = (B, A) \<or> e = (B, B)"
        by (cases e) auto
      with True crosses_sym [of p A B] crosses_distinct [of p A A] crosses_distinct [of p B B]
      show "crosses p e = (fst e \<noteq> snd e)" by auto
    qed
    with ev show ?thesis by simp
  next
    case False
    have "\<not> crosses p e" if "e \<in> set ?E" for e
    proof -
      from ends [OF that] have "e = (A, A) \<or> e = (A, B) \<or> e = (B, A) \<or> e = (B, B)"
        by (cases e) auto
      with False crosses_sym [of p A B] crosses_distinct [of p A A] crosses_distinct [of p B B]
      show ?thesis by auto
    qed
    then have "filter (crosses p) ?E = []" by (simp add: filter_empty_conv)
    then show ?thesis by simp
  qed
qed

lemma small_set_two_points:
  assumes "card (set xs) < 3"
  shows "\<exists>A B. set xs \<subseteq> {A, B}"
proof -
  consider "card (set xs) = 0" | "card (set xs) = 1" | "card (set xs) = 2"
    using assms by linarith
  then show ?thesis
  proof cases
    case 1
    then show ?thesis by simp
  next
    case 2
    then obtain a where "set xs = {a}" by (auto simp: card_1_singleton_iff)
    then show ?thesis by blast
  next
    case 3
    then obtain a b where "set xs = {a, b}" by (auto simp: card_2_iff)
    then show ?thesis by blast
  qed
qed

lemma malformed_ring_contains_nothing:
  assumes "spec_malformed_polygon ring"
  shows "\<not> ring_contains ring p"
proof -
  from assms have "card (set ring) < 3" by (simp add: spec_malformed_polygon_def)
  from small_set_two_points [OF this] obtain A B where "set ring \<subseteq> {A, B}" by blast
  from even_crossings_two_vertices [OF this] show ?thesis
    by (simp add: ring_contains_def)
qed

text \<open>
  The claim C9 as the specification states it fails. A ring of two coordinate pairs is
  rejected by the constructor with \<^verbatim>\<open>ValueError\<close>, not with \<^verbatim>\<open>InvalidPolygonError\<close>; a
  ring of four coordinate pairs of which only two are distinct is accepted, and the
  selection completes with no row and no error.
\<close>

theorem polygon_selector_malformed_counterexample:
  "spec_malformed_polygon [(0, 0), (1, 1)] \<and>
   polygon_selector grid_ops [point_feature 2 2] [(0, 0), (1, 1)] = Inl ValueError \<and>
   polygon_selector grid_ops [point_feature 2 2] [(0, 0), (1, 1)] \<noteq> Inl InvalidPolygonError \<and>
   spec_malformed_polygon [(0, 0), (1, 1), (0, 0), (1, 1)] \<and>
   polygon_selector grid_ops [point_feature 2 2] [(0, 0), (1, 1), (0, 0), (1, 1)] = Inr []"
proof -
  have m1: "spec_malformed_polygon [(0, 0), (1, 1)]" by code_simp
  have m2: "spec_malformed_polygon [(0, 0), (1, 1), (0, 0), (1, 1)]" by code_simp
  have r1: "polygon_selector grid_ops [point_feature 2 2] [(0, 0), (1, 1)] = Inl ValueError"
    by code_simp
  have r2: "polygon_selector grid_ops [point_feature 2 2] [(0, 0), (1, 1), (0, 0), (1, 1)] = Inr []"
    by code_simp
  from m1 m2 r1 r2 show ?thesis by simp
qed

text \<open>
  C9, amended. The selector checks nothing about the ring and has no error of its own: it
  fails exactly when the library's constructor rejects the coordinate list, with the
  exception of the constructor, and for every ring the constructor accepts it completes
  and returns the rows whose centroid the polygon contains. A ring with fewer than 3
  distinct vertices that the constructor accepts gives the empty selection.
\<close>

theorem polygon_selector_errors:
  "(polygon_selector ops gdf ring = Inl e) = (polygon_raises ops ring = Some e) \<and>
   (polygon_raises ops ring = None \<longrightarrow>
      polygon_selector ops gdf ring =
        Inr (filter (\<lambda>row. ring_contains ring (centroid ops (geometry row))) gdf)) \<and>
   (spec_malformed_polygon ring \<and> polygon_raises ops ring = None \<longrightarrow>
      polygon_selector ops gdf ring = Inr [])"
proof (intro conjI impI)
  show "(polygon_selector ops gdf ring = Inl e) = (polygon_raises ops ring = Some e)"
    by (simp add: polygon_selector_def split: option.splits)
next
  assume "polygon_raises ops ring = None"
  then show "polygon_selector ops gdf ring =
      Inr (filter (\<lambda>row. ring_contains ring (centroid ops (geometry row))) gdf)"
    by (simp add: polygon_selector_def)
next
  assume "spec_malformed_polygon ring \<and> polygon_raises ops ring = None"
  then have "filter (\<lambda>row. ring_contains ring (centroid ops (geometry row))) gdf = []"
    and "polygon_raises ops ring = None"
    by (simp_all add: malformed_ring_contains_nothing)
  then show "polygon_selector ops gdf ring = Inr []"
    by (simp add: polygon_selector_def)
qed

theorem polygon_selector_errors_witness:
  "polygon_raises grid_ops [(0, 0), (1, 1)] = Some ValueError \<and>
   polygon_selector grid_ops [point_feature 2 2] [(0, 0), (1, 1)] = Inl ValueError \<and>
   polygon_raises grid_ops [(0, 0), (4, 0), (4, 4), (0, 4)] = None \<and>
   polygon_selector grid_ops [point_feature 2 2, point_feature 5 5] [(0, 0), (4, 0), (4, 4), (0, 4)] =
     Inr [point_feature 2 2] \<and>
   spec_malformed_polygon [(0, 0), (1, 1), (0, 0), (1, 1)] \<and>
   polygon_raises grid_ops [(0, 0), (1, 1), (0, 0), (1, 1)] = None \<and>
   polygon_selector grid_ops [point_feature (1 / 2) (1 / 2)] [(0, 0), (1, 1), (0, 0), (1, 1)] = Inr []"
proof -
  have r1: "polygon_raises grid_ops [(0, 0), (1, 1)] = Some ValueError" by code_simp
  have r2: "polygon_raises grid_ops [(0, 0), (4, 0), (4, 4), (0, 4)] = None" by code_simp
  have r3: "polygon_raises grid_ops [(0, 0), (1, 1), (0, 0), (1, 1)] = None" by code_simp
  have m: "spec_malformed_polygon [(0, 0), (1, 1), (0, 0), (1, 1)]" by code_simp
  have f: "filter (\<lambda>row. ring_contains [(0, 0), (4, 0), (4, 4), (0, 4)] (centroid grid_ops (geometry row)))
      [point_feature 2 2, point_feature 5 5] = [point_feature 2 2]" by code_simp
  from polygon_selector_errors [of grid_ops "[point_feature 2 2]" "[(0, 0), (1, 1)]" ValueError] r1
  have e1: "polygon_selector grid_ops [point_feature 2 2] [(0, 0), (1, 1)] = Inl ValueError"
    by blast
  from polygon_selector_errors [of grid_ops "[point_feature 2 2, point_feature 5 5]"
      "[(0, 0), (4, 0), (4, 4), (0, 4)]" ValueError] r2
  have sel: "polygon_selector grid_ops [point_feature 2 2, point_feature 5 5]
      [(0, 0), (4, 0), (4, 4), (0, 4)] =
      Inr (filter (\<lambda>row. ring_contains [(0, 0), (4, 0), (4, 4), (0, 4)]
                             (centroid grid_ops (geometry row)))
             [point_feature 2 2, point_feature 5 5])"
    by blast
  have e2: "polygon_selector grid_ops [point_feature 2 2, point_feature 5 5]
      [(0, 0), (4, 0), (4, 4), (0, 4)] = Inr [point_feature 2 2]"
    unfolding sel f ..
  from polygon_selector_errors [of grid_ops "[point_feature (1 / 2) (1 / 2)]"
      "[(0, 0), (1, 1), (0, 0), (1, 1)]" ValueError] m r3
  have e3: "polygon_selector grid_ops [point_feature (1 / 2) (1 / 2)]
      [(0, 0), (1, 1), (0, 0), (1, 1)] = Inr []"
    by blast
  from r1 e1 r2 e2 m r3 e3 show ?thesis by blast
qed

section \<open>CSV export\<close>

text \<open>
  Where every selected row is a Point, the export returns one row per feature, in order:
  the properties of the feature with the column \<^verbatim>\<open>latitude\<close> set to y and the column
  \<^verbatim>\<open>longitude\<close> set to x.
\<close>

lemma point_coords_all_points:
  "(\<And>g. g \<in> set gs \<Longrightarrow> point_xy ops g \<noteq> None) \<Longrightarrow>
     point_coords ops gs = Inr (map (\<lambda>g. the (point_xy ops g)) gs)"
  by (induction gs) (auto split: option.splits)

lemma set_column_map:
  "set_column name (map f xs) (map g xs) = map (\<lambda>x. AList.update name (f x) (g x)) xs"
  by (induction xs) (simp_all add: set_column_def)

lemma csv_export_point_rows:
  assumes "\<And>row. row \<in> set selected_signals \<Longrightarrow> point_xy ops (geometry row) \<noteq> None"
  shows "csv_export ops selected_signals =
     Inr (map (\<lambda>row. AList.update ''longitude'' (VNum (fst (the (point_xy ops (geometry row)))))
                       (AList.update ''latitude'' (VNum (snd (the (point_xy ops (geometry row)))))
                          (properties row)))
            selected_signals)"
proof -
  have "point_coords ops (map geometry selected_signals) =
      Inr (map (\<lambda>g. the (point_xy ops g)) (map geometry selected_signals))"
    by (rule point_coords_all_points) (use assms in auto)
  then show ?thesis
    by (simp add: csv_export_def comp_def set_column_map)
qed

lemma point_coords_not_point:
  "g \<in> set gs \<Longrightarrow> point_xy ops g = None \<Longrightarrow> point_coords ops gs = Inl ValueError"
proof (induction gs)
  case Nil
  then show ?case by simp
next
  case (Cons h gs)
  show ?case
  proof (cases "point_xy ops h")
    case None
    then show ?thesis by simp
  next
    case (Some p)
    with Cons.prems have "g \<in> set gs" by auto
    from Cons.IH [OF this Cons.prems(2)] Some show ?thesis by simp
  qed
qed

text \<open>
  C7. The export reads \<^verbatim>\<open>geometry.x\<close> and \<^verbatim>\<open>geometry.y\<close>, not the centroid the
  selector uses: as soon as one selected row has a geometry that is not a Point, the
  export raises \<^verbatim>\<open>ValueError\<close> and produces no row at all.
\<close>

theorem csv_export_non_point:
  assumes "row \<in> set selected_signals" and "point_xy ops (geometry row) = None"
  shows "csv_export ops selected_signals = Inl ValueError"
proof -
  from assms(1) have "geometry row \<in> set (map geometry selected_signals)" by simp
  from point_coords_not_point [OF this assms(2)] show ?thesis
    by (simp add: csv_export_def)
qed

theorem csv_export_non_point_witness:
  "region_feature [(0, 0)] \<in> set [region_feature [(0, 0)]] \<and>
   point_xy grid_ops (geometry (region_feature [(0, 0)])) = None \<and>
   centroid grid_ops (geometry (region_feature [(0, 0)])) = (1 / 2, 1 / 2) \<and>
   csv_export grid_ops [region_feature [(0, 0)]] = Inl ValueError"
proof -
  have m: "region_feature [(0, 0)] \<in> set [region_feature [(0, 0)]]" by simp
  have n: "point_xy grid_ops (geometry (region_feature [(0, 0)])) = None" by code_simp
  have c: "centroid grid_ops (geometry (region_feature [(0, 0)])) = (1 / 2, 1 / 2)" by code_simp
  from csv_export_non_point [OF m n] m n c show ?thesis by simp
qed

text \<open>
  For a single Point row the export gives the row of its properties with
  \<^verbatim>\<open>latitude\<close> = y and \<^verbatim>\<open>longitude\<close> = x, as in the scenario of the specification at
  (lon = -122.4, lat = 37.8).
\<close>

lemma csv_export_single_point:
  assumes "point_xy ops (geometry row) = Some (x, y)"
  shows "csv_export ops [row] =
     Inr [AList.update ''longitude'' (VNum x) (AList.update ''latitude'' (VNum y) (properties row))]"
  using assms by (simp add: csv_export_def set_column_def)

lemma csv_export_scenario:
  "csv_export grid_ops [point_feature (- 122.4) 37.8] =
     Inr [[(''name'', VStr ''a''), (''latitude'', VNum 37.8), (''longitude'', VNum (- 122.4))]]"
  by code_simp

end
